theory Spec2Isabelle
  imports Main "HOL-Library.Sublist"
begin

section \<open>Python strings\<close>

text \<open>
  A Python \<open>str\<close> is a sequence of Unicode code points, so it is modelled as a list of
  natural numbers: \<open>len\<close> and slicing count code points, not bytes. ASCII literals of
  the source are written with \<open>lit\<close>; other characters are given by their code point.
  The operator \<open>in\<close> on strings is \<^const>\<open>sublist\<close>.
\<close>

type_synonym pystr = "nat list"

definition lit :: "string \<Rightarrow> pystr" where
  "lit s = map of_char s"

datatype py_error = ValueError | UnicodeEncodeError | UnicodeDecodeError

text \<open>The characters that \<open>str.strip()\<close> removes (those for which \<open>str.isspace\<close> holds).\<close>

definition isspace :: "nat \<Rightarrow> bool" where
  "isspace c \<longleftrightarrow>
     (9 \<le> c \<and> c \<le> 13) \<or> (28 \<le> c \<and> c \<le> 32) \<or> c = 133 \<or> c = 160 \<or> c = 5760 \<or>
     (8192 \<le> c \<and> c \<le> 8202) \<or> c = 8232 \<or> c = 8233 \<or> c = 8239 \<or> c = 8287 \<or> c = 12288"

definition strip :: "pystr \<Rightarrow> pystr" where
  "strip s = rev (dropWhile isspace (rev (dropWhile isspace s)))"

text \<open>
  \<open>cut_first sep text\<close> finds the leftmost occurrence of the non-empty \<open>sep\<close> and returns
  what is before and after it.
\<close>

fun cut_first :: "'a list \<Rightarrow> 'a list \<Rightarrow> ('a list \<times> 'a list) option" where
  "cut_first sep [] = None"
| "cut_first sep (x # xs) =
     (if prefix sep (x # xs) then Some ([], drop (length sep) (x # xs))
      else (case cut_first sep xs of
              None \<Rightarrow> None
            | Some (a, b) \<Rightarrow> Some (x # a, b)))"

text \<open>\<open>text.split(sep, 1)\<close>: an empty separator raises \<open>ValueError\<close>.\<close>

definition split1 :: "pystr \<Rightarrow> pystr \<Rightarrow> py_error + pystr list" where
  "split1 text sep =
     (if sep = [] then Inl ValueError
      else (case cut_first sep text of
              None \<Rightarrow> Inr [text]
            | Some (a, b) \<Rightarrow> Inr [a, b]))"

text \<open>Tuple unpacking \<open>a, b = xs\<close>: any length other than two raises \<open>ValueError\<close>.\<close>

definition unpack2 :: "'a list \<Rightarrow> py_error + 'a \<times> 'a" where
  "unpack2 xs = (case xs of [a, b] \<Rightarrow> Inr (a, b) | _ \<Rightarrow> Inl ValueError)"

text \<open>
  \<open>text.replace(old, new)\<close>: every non-overlapping occurrence of \<open>old\<close>, found from the
  left, is replaced. With an empty \<open>old\<close> Python puts \<open>new\<close> before every character and
  at the end.
\<close>

function replace_ne :: "pystr \<Rightarrow> pystr \<Rightarrow> pystr \<Rightarrow> pystr" where
  "replace_ne old new [] = []"
| "replace_ne old new (x # xs) =
     (if prefix old (x # xs) then new @ replace_ne old new (drop (length old - 1) xs)
      else x # replace_ne old new xs)"
  by pat_completeness auto
termination
  by (relation "measure (\<lambda>(old, new, text). length text)") auto

definition replace :: "pystr \<Rightarrow> pystr \<Rightarrow> pystr \<Rightarrow> pystr" where
  "replace text old new =
     (if old = [] then new @ concat (map (\<lambda>c. c # new) text)
      else replace_ne old new text)"

text \<open>\<open>sep.join(xs)\<close>.\<close>

fun join :: "pystr \<Rightarrow> pystr list \<Rightarrow> pystr" where
  "join sep [] = []"
| "join sep [x] = x"
| "join sep (x # y # ys) = x @ sep @ join sep (y # ys)"

text \<open>\<open>str(i)\<close> for an integer: decimal digits, with a minus sign when negative.\<close>

function dec_nat :: "nat \<Rightarrow> pystr" where
  "dec_nat n = (if n < 10 then [48 + n] else dec_nat (n div 10) @ [48 + n mod 10])"
  by pat_completeness auto
termination
  by (relation "measure id") auto

definition str_int :: "int \<Rightarrow> pystr" where
  "str_int i = (if i < 0 then 45 # dec_nat (nat (- i)) else dec_nat (nat i))"

section \<open>Response parser\<close>

definition Subject_marker :: pystr where
  "Subject_marker = lit ''Subject:''"

definition Body_marker :: pystr where
  "Body_marker = lit ''Body:''"

definition parse_fallback :: "pystr \<Rightarrow> pystr \<times> pystr" where
  "parse_fallback text = (lit ''Generated Email'', strip text)"

text \<open>
  The body of the \<open>try\<close> block of \<open>parse_subject_body\<close>: \<open>Inl\<close> is an exception raised in
  it, \<open>Inr None\<close> is leaving the block without \<open>return\<close>.
\<close>

definition parse_try :: "pystr \<Rightarrow> py_error + (pystr \<times> pystr) option" where
  "parse_try text =
     (case split1 text Body_marker of
        Inl e \<Rightarrow> Inl e
      | Inr parts \<Rightarrow>
          (case unpack2 parts of
             Inl e \<Rightarrow> Inl e
           | Inr (before_body, after_subject) \<Rightarrow>
               (let subject = strip (replace before_body Subject_marker []);
                    body = strip after_subject
                in if subject \<noteq> [] \<and> body \<noteq> [] then Inr (Some (subject, body))
                   else Inr None)))"

definition parse_subject_body :: "pystr \<Rightarrow> pystr \<times> pystr" where
  "parse_subject_body text =
     (if sublist Subject_marker text \<and> sublist Body_marker text then
        (case parse_try text of
           Inr (Some r) \<Rightarrow> r
         | Inr None \<Rightarrow> parse_fallback text
         | Inl e \<Rightarrow> parse_fallback text)
      else parse_fallback text)"

section \<open>Exceptions of the external libraries, and what the program writes\<close>

text \<open>
  An exception raised by an external library is known to the program by its \<open>str()\<close>
  only, which the program formats into its messages.
\<close>

datatype exn = Exn pystr

fun str_exn :: "exn \<Rightarrow> pystr" where
  "str_exn (Exn m) = m"

text \<open>Lines written to the logger and to the user interface.\<close>

datatype effect = LogError pystr | UiError pystr | SidebarError pystr

section \<open>Generation client adapter\<close>

text \<open>
  The argument of \<open>model.generate_content\<close> is the prompt, or the list of the system
  instruction and the prompt. The call raises or returns a response; reading
  \<open>response.text\<close> raises or yields a text, which may be empty or \<open>None\<close>.

  The handler of the adapter is \<open>except Exception\<close>, so the class of what is raised
  matters: an exception that derives from \<open>Exception\<close> is caught, one that derives
  from \<open>BaseException\<close> only (\<open>KeyboardInterrupt\<close>, \<open>SystemExit\<close>) is not.
\<close>

datatype content = Prompt pystr | Parts "pystr list"

datatype raised = OfException exn | OfBaseException exn

type_synonym response = "raised + pystr option"

type_synonym gen_model = "content \<Rightarrow> raised + response"

definition fallback_generation :: "pystr \<Rightarrow> pystr" where
  "fallback_generation prompt =
     lit ''(Fallback response)'' @ [10, 10] @
     lit ''Could not connect to Gemini. Prompt was:'' @ [10] @ prompt"

definition empty_response_marker :: pystr where
  "empty_response_marker = [40, 9888] @ lit '' Empty response from Gemini)''"

definition truthy :: "pystr option \<Rightarrow> bool" where
  "truthy v = (case v of None \<Rightarrow> False | Some s \<Rightarrow> s \<noteq> [])"

definition request_content :: "pystr \<Rightarrow> pystr option \<Rightarrow> content" where
  "request_content prompt system_instruction =
     (if truthy system_instruction then Parts [the system_instruction, prompt]
      else Prompt prompt)"

definition generate_try :: "gen_model \<Rightarrow> pystr \<Rightarrow> pystr option \<Rightarrow> raised + pystr" where
  "generate_try model prompt system_instruction =
     (case model (request_content prompt system_instruction) of
        Inl e \<Rightarrow> Inl e
      | Inr response \<Rightarrow>
          (case response of
             Inl e \<Rightarrow> Inl e
           | Inr t \<Rightarrow> Inr (if truthy t then the t else empty_response_marker)))"

text \<open>
  \<open>Inl\<close> is an exception that leaves \<open>generate_with_gemini\<close>; \<open>Inr\<close> is the string
  returned, with what was logged.
\<close>

definition generate_with_gemini ::
    "gen_model \<Rightarrow> pystr \<Rightarrow> pystr option \<Rightarrow> raised + pystr \<times> effect list" where
  "generate_with_gemini model prompt system_instruction =
     (case generate_try model prompt system_instruction of
        Inr r \<Rightarrow> Inr (r, [])
      | Inl (OfException e) \<Rightarrow>
          Inr (fallback_generation
                 (prompt @ [10, 10] @ lit ''(Note: Fallback used due to: '' @ str_exn e @ lit '')''),
               [LogError (lit ''Gemini API call failed: '' @ str_exn e)])
      | Inl (OfBaseException e) \<Rightarrow> Inl (OfBaseException e))"

section \<open>Document text extractor\<close>

text \<open>
  What the libraries make of an uploaded file: \<open>PyPDF2.PdfReader(file)\<close> with its
  \<open>pages\<close> raises or gives the pages, and \<open>extract_text()\<close> of a page raises or gives
  a text; \<open>docx.Document(file)\<close> raises or gives the texts of the paragraphs.
\<close>

type_synonym pdf_page = "exn + pystr"

type_synonym pdf_doc = "exn + pdf_page list"

type_synonym docx_doc = "exn + pystr list"

record upload =
  as_pdf :: pdf_doc
  as_docx :: docx_doc

text \<open>The loop over the pages, with the list \<open>texts\<close> it appends to.\<close>

fun pdf_pages_loop :: "pystr list \<Rightarrow> pdf_page list \<Rightarrow> pystr list" where
  "pdf_pages_loop texts [] = texts"
| "pdf_pages_loop texts (page # pages) =
     (case page of
        Inl e \<Rightarrow> pdf_pages_loop texts pages
      | Inr t \<Rightarrow> if t \<noteq> [] then pdf_pages_loop (texts @ [t]) pages
                 else pdf_pages_loop texts pages)"

text \<open>
  The texts of the pages whose extraction returned, in the order of the pages; a page
  whose extraction raised contributes nothing.
\<close>

definition returned_texts :: "pdf_page list \<Rightarrow> pystr list" where
  "returned_texts pages = concat (map (\<lambda>page. case page of Inl e \<Rightarrow> [] | Inr t \<Rightarrow> [t]) pages)"

definition extract_text_from_pdf :: "pdf_doc \<Rightarrow> pystr \<times> effect list" where
  "extract_text_from_pdf file =
     (case file of
        Inl e \<Rightarrow> ([], [LogError (lit ''PDF extraction failed: '' @ str_exn e)])
      | Inr pages \<Rightarrow> (join [32] (pdf_pages_loop [] pages), []))"

definition extract_text_from_docx :: "docx_doc \<Rightarrow> pystr \<times> effect list" where
  "extract_text_from_docx file =
     (case file of
        Inl e \<Rightarrow> ([], [LogError (lit ''DOCX extraction failed: '' @ str_exn e)])
      | Inr paragraphs \<Rightarrow> (join [32] paragraphs, []))"

definition analyze_cv :: "upload \<Rightarrow> pystr \<Rightarrow> pystr \<times> effect list" where
  "analyze_cv file file_type =
     (if file_type = lit ''pdf'' then extract_text_from_pdf (as_pdf file)
      else if file_type \<in> set [lit ''doc'', lit ''docx''] then extract_text_from_docx (as_docx file)
      else ([], []))"

section \<open>Download link\<close>

text \<open>
  \<open>str.encode()\<close> is UTF-8 with the error handler \<open>strict\<close>: a surrogate code point
  raises \<open>UnicodeEncodeError\<close>. Bytes are numbers below 256. Numbers from \<open>0x110000\<close> on
  are no characters of a Python string; the model rejects them too.
\<close>

definition utf8_char :: "nat \<Rightarrow> py_error + nat list" where
  "utf8_char c =
     (if c < 0x80 then Inr [c]
      else if c < 0x800 then Inr [0xC0 + c div 64, 0x80 + c mod 64]
      else if 0xD800 \<le> c \<and> c \<le> 0xDFFF then Inl UnicodeEncodeError
      else if c < 0x10000 then
        Inr [0xE0 + c div 4096, 0x80 + (c div 64) mod 64, 0x80 + c mod 64]
      else if c < 0x110000 then
        Inr [0xF0 + c div 262144, 0x80 + (c div 4096) mod 64, 0x80 + (c div 64) mod 64,
             0x80 + c mod 64]
      else Inl UnicodeEncodeError)"

fun encode :: "pystr \<Rightarrow> py_error + nat list" where
  "encode [] = Inr []"
| "encode (c # cs) =
     (case utf8_char c of
        Inl e \<Rightarrow> Inl e
      | Inr bs \<Rightarrow> (case encode cs of Inl e \<Rightarrow> Inl e | Inr rest \<Rightarrow> Inr (bs @ rest)))"

text \<open>
  \<open>bytes.decode()\<close> is strict UTF-8 too: a continuation byte is in \<open>0x80..0xBF\<close>, and
  overlong forms, surrogates and values above \<open>0x10FFFF\<close> raise \<open>UnicodeDecodeError\<close>.
\<close>

definition is_cont :: "nat \<Rightarrow> bool" where
  "is_cont b \<longleftrightarrow> 0x80 \<le> b \<and> b < 0xC0"

fun decode :: "nat list \<Rightarrow> py_error + pystr" where
  "decode [] = Inr []"
| "decode (b # bs) =
     (if b < 0x80 then
        (case decode bs of Inl e \<Rightarrow> Inl e | Inr cs \<Rightarrow> Inr (b # cs))
      else if 0xC2 \<le> b \<and> b < 0xE0 then
        (case bs of
           b1 # r \<Rightarrow>
             if is_cont b1 then
               (case decode r of
                  Inl e \<Rightarrow> Inl e
                | Inr cs \<Rightarrow> Inr (((b - 0xC0) * 64 + (b1 - 0x80)) # cs))
             else Inl UnicodeDecodeError
         | _ \<Rightarrow> Inl UnicodeDecodeError)
      else if 0xE0 \<le> b \<and> b < 0xF0 then
        (case bs of
           b1 # b2 # r \<Rightarrow>
             (let c = (b - 0xE0) * 4096 + (b1 - 0x80) * 64 + (b2 - 0x80)
              in if is_cont b1 \<and> is_cont b2 \<and> 0x800 \<le> c \<and> \<not> (0xD800 \<le> c \<and> c \<le> 0xDFFF) then
                   (case decode r of Inl e \<Rightarrow> Inl e | Inr cs \<Rightarrow> Inr (c # cs))
                 else Inl UnicodeDecodeError)
         | _ \<Rightarrow> Inl UnicodeDecodeError)
      else if 0xF0 \<le> b \<and> b < 0xF5 then
        (case bs of
           b1 # b2 # b3 # r \<Rightarrow>
             (let c = (b - 0xF0) * 262144 + (b1 - 0x80) * 4096 + (b2 - 0x80) * 64 + (b3 - 0x80)
              in if is_cont b1 \<and> is_cont b2 \<and> is_cont b3 \<and> 0x10000 \<le> c \<and> c < 0x110000 then
                   (case decode r of Inl e \<Rightarrow> Inl e | Inr cs \<Rightarrow> Inr (c # cs))
                 else Inl UnicodeDecodeError)
         | _ \<Rightarrow> Inl UnicodeDecodeError)
      else Inl UnicodeDecodeError)"

text \<open>
  \<open>base64.b64encode\<close>, the standard alphabet of RFC 4648 with \<open>=\<close> padding: three
  bytes give four characters of six bits each.
\<close>

definition b64_char :: "nat \<Rightarrow> nat" where
  "b64_char i =
     (if i < 26 then 65 + i
      else if i < 52 then 97 + (i - 26)
      else if i < 62 then 48 + (i - 52)
      else if i = 62 then 43
      else 47)"

fun b64encode :: "nat list \<Rightarrow> nat list" where
  "b64encode [] = []"
| "b64encode [a] = [b64_char (a div 4), b64_char ((a mod 4) * 16), 61, 61]"
| "b64encode [a, b] =
     [b64_char (a div 4), b64_char ((a mod 4) * 16 + b div 16), b64_char ((b mod 16) * 4), 61]"
| "b64encode (a # b # c # rest) =
     [b64_char (a div 4), b64_char ((a mod 4) * 16 + b div 16),
      b64_char ((b mod 16) * 4 + c div 64), b64_char (c mod 64)] @ b64encode rest"

definition anchor_open :: pystr where
  \<open>anchor_open = lit ''<a href="data:file/txt;base64,''\<close>

definition anchor_close :: pystr where
  \<open>anchor_close = lit ''" download="email.txt">'' @ [128190] @ lit '' Download as TXT</a>''\<close>

definition download_txt :: "pystr \<Rightarrow> pystr \<Rightarrow> py_error + pystr" where
  "download_txt subject body =
     (let content = lit ''Subject: '' @ subject @ [10, 10] @ body
      in case encode content of
           Inl e \<Rightarrow> Inl e
         | Inr bytes \<Rightarrow>
             (case decode (b64encode bytes) of
                Inl e \<Rightarrow> Inl e
              | Inr b64 \<Rightarrow> Inr (anchor_open @ b64 @ anchor_close)))"

text \<open>The strings that \<open>encode\<close> accepts: Unicode scalar values only.\<close>

definition is_scalar :: "nat \<Rightarrow> bool" where
  "is_scalar c \<longleftrightarrow> c < 0x110000 \<and> \<not> (0xD800 \<le> c \<and> c \<le> 0xDFFF)"

definition encodable :: "pystr \<Rightarrow> bool" where
  "encodable s \<longleftrightarrow> list_all is_scalar s"

text \<open>
  The reader of the link: the base64 decoder of RFC 4648, \<open>None\<close> on a text that is no
  base64 text.
\<close>

definition b64_value :: "nat \<Rightarrow> nat option" where
  "b64_value ch =
     (if 65 \<le> ch \<and> ch \<le> 90 then Some (ch - 65)
      else if 97 \<le> ch \<and> ch \<le> 122 then Some (ch - 97 + 26)
      else if 48 \<le> ch \<and> ch \<le> 57 then Some (ch - 48 + 52)
      else if ch = 43 then Some 62
      else if ch = 47 then Some 63
      else None)"

fun b64decode :: "nat list \<Rightarrow> nat list option" where
  "b64decode [] = Some []"
| "b64decode (w # x # y # z # rest) =
     (case (b64_value w, b64_value x) of
        (Some p, Some q) \<Rightarrow>
          (if rest = [] \<and> y = 61 \<and> z = 61 then Some [p * 4 + q div 16]
           else (case b64_value y of
                   None \<Rightarrow> None
                 | Some r \<Rightarrow>
                     (if rest = [] \<and> z = 61 then
                        Some [p * 4 + q div 16, (q mod 16) * 16 + r div 4]
                      else (case (b64_value z, b64decode rest) of
                              (Some s, Some bs) \<Rightarrow>
                                Some ([p * 4 + q div 16, (q mod 16) * 16 + r div 4,
                                       (r mod 4) * 64 + s] @ bs)
                            | _ \<Rightarrow> None))))
      | _ \<Rightarrow> None)"
| "b64decode _ = None"

section \<open>Prompt builder\<close>

text \<open>
  The fields of the form that the prompt is built from; in the source they are the
  local variables of the page.
\<close>

record generation_request =
  student_name :: pystr
  recipient :: pystr
  purpose :: pystr
  details :: pystr
  tone :: pystr
  style :: pystr
  formality_level :: int
  language :: pystr
  cv_text :: pystr

definition cv_label :: pystr where
  "cv_label = lit ''The student has attached their CV. Relevant CV details: ''"

definition cv_clause :: "pystr \<Rightarrow> pystr" where
  "cv_clause cv = (if cv \<noteq> [] then cv_label @ take 1000 cv else [])"

definition indent :: pystr where
  "indent = lit ''            ''"

definition prompt_head :: "generation_request \<Rightarrow> pystr" where
  "prompt_head r =
     [10] @
     indent @ lit ''You are an AI assistant that generates professional emails for students and early-career professionals.'' @ [10] @
     [10] @
     indent @ lit ''Generate an email with:'' @ [10] @
     indent @ lit ''- Subject line'' @ [10] @
     indent @ lit ''- Body text'' @ [10] @
     [10] @
     indent @ lit ''Student Name: '' @ student_name r @ [10] @
     indent @ lit ''Recipient: '' @ recipient r @ [10] @
     indent @ lit ''Purpose: '' @ purpose r @ [10] @
     indent @ lit ''Additional Context: '' @ details r @ [10] @
     indent @ lit ''Tone: '' @ tone r @ [10] @
     indent @ lit ''Writing Style: '' @ style r @ [10] @
     indent @ lit ''Formality Level: '' @ str_int (formality_level r) @ lit ''/100'' @ [10] @
     indent @ lit ''Language: '' @ language r @ [10] @
     indent"

definition prompt_tail :: pystr where
  "prompt_tail =
     [10] @
     [10] @
     indent @ lit ''Format output as:'' @ [10] @
     indent @ lit ''Subject: ...'' @ [10] @
     indent @ lit ''Body: ...'' @ [10] @
     indent"

definition build_prompt :: "generation_request \<Rightarrow> pystr" where
  "build_prompt r = prompt_head r @ cv_clause (cv_text r) @ prompt_tail"

section \<open>User record store\<close>

text \<open>
  The collection \<open>users\<close> of the document store maps a login email to a document, and a
  document maps a field name to an array. The elements of the array are compared by
  value. Each call to the store may fail, as the environment decides: \<open>None\<close> is a call
  that goes through, \<open>Some e\<close> one that raises \<open>e\<close>. \<open>update\<close> of a document that does
  not exist raises too.
\<close>

record email =
  subject :: pystr
  body :: pystr

type_synonym 'v document = "pystr \<rightharpoonup> 'v list"

type_synonym 'v database = "pystr \<rightharpoonup> 'v document"

record fs_env =
  get_fault :: "exn option"
  set_fault :: "exn option"
  update_fault :: "exn option"

datatype 'v transform = ArrayUnion "'v list" | ArrayRemove "'v list" | Value "'v list"

definition array_union :: "'v list \<Rightarrow> 'v list \<Rightarrow> 'v list" where
  "array_union xs ys = fold (\<lambda>y acc. if y \<in> set acc then acc else acc @ [y]) ys xs"

definition array_remove :: "'v list \<Rightarrow> 'v list \<Rightarrow> 'v list" where
  "array_remove xs ys = filter (\<lambda>x. x \<notin> set ys) xs"

definition apply_transform :: "'v transform \<Rightarrow> 'v list option \<Rightarrow> 'v list" where
  "apply_transform tr old =
     (let xs = (case old of None \<Rightarrow> [] | Some xs \<Rightarrow> xs)
      in case tr of
           ArrayUnion ys \<Rightarrow> array_union xs ys
         | ArrayRemove ys \<Rightarrow> array_remove xs ys
         | Value ys \<Rightarrow> ys)"

definition not_found :: exn where
  "not_found = Exn (lit ''404 No document to update'')"

definition fs_get :: "fs_env \<Rightarrow> 'v database \<Rightarrow> pystr \<Rightarrow> exn + 'v document option" where
  "fs_get env db uid = (case get_fault env of Some e \<Rightarrow> Inl e | None \<Rightarrow> Inr (db uid))"

definition fs_set :: "fs_env \<Rightarrow> 'v database \<Rightarrow> pystr \<Rightarrow> 'v document \<Rightarrow> exn + 'v database" where
  "fs_set env db uid doc =
     (case set_fault env of Some e \<Rightarrow> Inl e | None \<Rightarrow> Inr (db(uid \<mapsto> doc)))"

definition fs_update ::
    "fs_env \<Rightarrow> 'v database \<Rightarrow> pystr \<Rightarrow> pystr \<Rightarrow> 'v transform \<Rightarrow> exn + 'v database" where
  "fs_update env db uid field tr =
     (case update_fault env of
        Some e \<Rightarrow> Inl e
      | None \<Rightarrow>
          (case db uid of
             None \<Rightarrow> Inl not_found
           | Some doc \<Rightarrow> Inr (db(uid \<mapsto> doc(field \<mapsto> apply_transform tr (doc field))))))"

definition emails_field :: pystr where
  "emails_field = lit ''emails''"

definition ensure_user_doc :: "fs_env \<Rightarrow> 'v database \<Rightarrow> pystr \<Rightarrow> exn + 'v database" where
  "ensure_user_doc env db user_email =
     (case fs_get env db user_email of
        Inl e \<Rightarrow> Inl e
      | Inr snap \<Rightarrow>
          (if snap = None then fs_set env db user_email [emails_field \<mapsto> []]
           else Inr db))"

definition save_email ::
    "fs_env \<Rightarrow> 'v database \<Rightarrow> pystr \<Rightarrow> 'v \<Rightarrow> exn + 'v database \<times> effect list" where
  "save_email env db user_email email_obj =
     (case ensure_user_doc env db user_email of
        Inl e \<Rightarrow> Inl e
      | Inr db1 \<Rightarrow>
          (case fs_update env db1 user_email emails_field (ArrayUnion [email_obj]) of
             Inr db2 \<Rightarrow> Inr (db2, [])
           | Inl e \<Rightarrow>
               Inr (db1, [LogError (lit ''Firestore save failed: '' @ str_exn e),
                          SidebarError ([10060] @ lit '' Failed to save email to Firestore.'')])))"

definition remove_email ::
    "fs_env \<Rightarrow> 'v database \<Rightarrow> pystr \<Rightarrow> 'v \<Rightarrow> exn + 'v database \<times> effect list" where
  "remove_email env db user_email email_obj =
     (case ensure_user_doc env db user_email of
        Inl e \<Rightarrow> Inl e
      | Inr db1 \<Rightarrow>
          (case fs_update env db1 user_email emails_field (ArrayRemove [email_obj]) of
             Inr db2 \<Rightarrow> Inr (db2, [])
           | Inl e \<Rightarrow>
               Inr (db1, [LogError (lit ''Firestore remove failed: '' @ str_exn e),
                          UiError ([10060] @ lit '' Failed to delete email.'')])))"

text \<open>
  The read path of the page: the array under \<open>emails\<close>, and the empty list when the
  document or the field is missing.
\<close>

definition stored_emails :: "'v database \<Rightarrow> pystr \<Rightarrow> 'v list" where
  "stored_emails db user_email =
     (case db user_email of
        None \<Rightarrow> []
      | Some doc \<Rightarrow> (case doc emails_field of None \<Rightarrow> [] | Some xs \<Rightarrow> xs))"

text \<open>An environment in which every call to the store goes through.\<close>

definition store_up :: "fs_env \<Rightarrow> bool" where
  "store_up env \<longleftrightarrow> get_fault env = None \<and> set_fault env = None \<and> update_fault env = None"

text \<open>A store with one user and two saved emails.\<close>

definition example_db :: "email database" where
  "example_db =
     [lit ''a@b.c'' \<mapsto>
        [emails_field \<mapsto> [\<lparr>subject = lit ''Hi'', body = lit ''Dear Sir''\<rparr>,
                           \<lparr>subject = lit ''Re'', body = lit ''Thanks''\<rparr>]]]"

section \<open>Properties of the string operations\<close>

lemma lit_simps [simp]: "lit [] = []" "lit (c # cs) = of_char c # lit cs"
  by (simp_all add: lit_def)

lemma cut_first_Some_iff_sublist:
  "sep \<noteq> [] \<Longrightarrow> (cut_first sep t \<noteq> None) = sublist sep t"
  by (induction t) (auto simp: sublist_Cons_right split: option.splits)

lemma cut_first_decomp:
  "cut_first sep t = Some (a, b) \<Longrightarrow> t = a @ sep @ b"
proof (induction t arbitrary: a b)
  case Nil
  then show ?case by simp
next
  case (Cons x xs)
  show ?case
  proof (cases "prefix sep (x # xs)")
    case True
    with Cons.prems have "a = []" "b = drop (length sep) (x # xs)" by auto
    moreover from True obtain r where "x # xs = sep @ r" by (auto simp: prefix_def)
    ultimately show ?thesis by simp
  next
    case False
    with Cons.prems obtain a' where "cut_first sep xs = Some (a', b)" "a = x # a'"
      by (auto split: option.splits)
    with Cons.IH show ?thesis by simp
  qed
qed

section \<open>Properties of the parser\<close>

lemma parse_try_no_raise:
  assumes "sublist Body_marker t"
  shows "parse_try t \<noteq> Inl e"
proof -
  have ne: "Body_marker \<noteq> []" by (simp add: Body_marker_def)
  with assms obtain a b where "cut_first Body_marker t = Some (a, b)"
    using cut_first_Some_iff_sublist [of Body_marker t] by auto
  then show ?thesis
    using ne by (simp add: parse_try_def split1_def unpack2_def Let_def)
qed

lemma strip_eq_Nil_iff: "strip s = [] \<longleftrightarrow> (\<forall>c\<in>set s. isspace c)"
proof
  assume "strip s = []"
  then have "\<forall>c\<in>set (dropWhile isspace s). isspace c"
    by (simp add: strip_def dropWhile_eq_Nil_conv)
  then have "dropWhile isspace s = []"
    by (metis hd_dropWhile list.set_sel(1))
  then show "\<forall>c\<in>set s. isspace c"
    by (simp add: dropWhile_eq_Nil_conv)
next
  assume "\<forall>c\<in>set s. isspace c"
  then have d: "dropWhile isspace s = []" by simp
  show "strip s = []" unfolding strip_def d by simp
qed

lemma cut_first_leftmost:
  "cut_first sep t = Some (a, b) \<Longrightarrow> t = h @ sep @ r \<Longrightarrow> length a \<le> length h"
proof (induction t arbitrary: a h)
  case Nil
  then show ?case by simp
next
  case (Cons x xs)
  show ?case
  proof (cases "prefix sep (x # xs)")
    case True
    with Cons.prems(1) have "a = []" by simp
    then show ?thesis by simp
  next
    case False
    with Cons.prems(1) obtain a' where a': "cut_first sep xs = Some (a', b)" "a = x # a'"
      by (auto split: option.splits)
    from False Cons.prems(2) have "h \<noteq> []" by (auto simp: prefix_def)
    with Cons.prems(2) obtain h' where h': "h = x # h'" "xs = h' @ sep @ r"
      by (cases h) auto
    from Cons.IH [OF a'(1) h'(2)] a'(2) h'(1) show ?thesis by simp
  qed
qed

lemma parse_subject_body_split:
  assumes "sublist Subject_marker t" "sublist Body_marker t"
  shows "\<exists>head tail. cut_first Body_marker t = Some (head, tail) \<and>
           parse_subject_body t =
             (let subject = strip (replace head Subject_marker []); body = strip tail
              in if subject \<noteq> [] \<and> body \<noteq> [] then (subject, body)
                 else (lit ''Generated Email'', strip t))"
proof -
  have ne: "Body_marker \<noteq> []" by (simp add: Body_marker_def)
  with assms obtain a b where ab: "cut_first Body_marker t = Some (a, b)"
    using cut_first_Some_iff_sublist [of Body_marker t] by auto
  with assms ne show ?thesis
    by (simp add: parse_subject_body_def parse_try_def split1_def unpack2_def Let_def
        parse_fallback_def)
qed

text \<open>
  Claim C1. A non-empty text that lacks the marker \<open>Subject:\<close> or lacks the marker
  \<open>Body:\<close> is parsed to the pair of \<open>Generated Email\<close> and the stripped text. Every
  text is parsed to a pair of two strings, and where the \<open>try\<close> block is entered it
  raises nothing.
\<close>

theorem parse_subject_body_fallback:
  "(t \<noteq> [] \<and> (\<not> sublist Subject_marker t \<or> \<not> sublist Body_marker t) \<longrightarrow>
      parse_subject_body t = (lit ''Generated Email'', strip t)) \<and>
   (\<exists>s b. parse_subject_body t = (s, b)) \<and>
   (sublist Body_marker t \<longrightarrow> (\<forall>e. parse_try t \<noteq> Inl e))"
proof (intro conjI impI)
  assume "t \<noteq> [] \<and> (\<not> sublist Subject_marker t \<or> \<not> sublist Body_marker t)"
  then show "parse_subject_body t = (lit ''Generated Email'', strip t)"
    by (auto simp: parse_subject_body_def parse_fallback_def)
next
  show "\<exists>s b. parse_subject_body t = (s, b)"
    by (cases "parse_subject_body t") blast
next
  assume "sublist Body_marker t"
  then show "\<forall>e. parse_try t \<noteq> Inl e"
    using parse_try_no_raise by blast
qed

lemmas ev = Subject_marker_def Body_marker_def sublist_Cons_right isspace_def strip_def
  parse_subject_body_def parse_try_def split1_def unpack2_def replace_def parse_fallback_def Let_def

theorem parse_subject_body_fallback_witness:
  "lit ''Body: hi '' \<noteq> [] \<and> \<not> sublist Subject_marker (lit ''Body: hi '') \<and>
   sublist Body_marker (lit ''Body: hi '') \<and>
   parse_subject_body (lit ''Body: hi '') = (lit ''Generated Email'', lit ''Body: hi'') \<and>
   parse_try (lit ''Body: hi '') \<noteq> Inl ValueError"
  using parse_subject_body_fallback [of "lit ''Body: hi ''"]
  by (simp add: Subject_marker_def Body_marker_def sublist_Cons_right isspace_def strip_def)

text \<open>
  Claim C2. A text with both markers is cut at the first occurrence of \<open>Body:\<close> into a
  head and a tail: no decomposition of the text around \<open>Body:\<close> has a shorter head. The
  candidate subject is the head with \<open>Subject:\<close> removed, stripped, the candidate body is
  the stripped tail, and the pair of them is returned when both are non-empty (the
  fallback pair otherwise). The two examples of the specification follow this rule.
\<close>

theorem parse_subject_body_split_rule:
  "(sublist Subject_marker t \<and> sublist Body_marker t \<longrightarrow>
      (\<exists>head tail.
          t = head @ Body_marker @ tail \<and>
          (\<forall>h r. t = h @ Body_marker @ r \<longrightarrow> length head \<le> length h) \<and>
          parse_subject_body t =
            (let subject = strip (replace head Subject_marker []); body = strip tail
             in if subject \<noteq> [] \<and> body \<noteq> [] then (subject, body)
                else (lit ''Generated Email'', strip t)))) \<and>
   parse_subject_body (lit ''Subject: Hi'' @ [10] @ lit ''Body: Hello there'') =
     (lit ''Hi'', lit ''Hello there'') \<and>
   parse_subject_body (lit ''Body: first Subject: second'') =
     (lit ''Generated Email'', lit ''Body: first Subject: second'')"
proof (intro conjI impI)
  assume "sublist Subject_marker t \<and> sublist Body_marker t"
  then obtain head tail where c: "cut_first Body_marker t = Some (head, tail)"
    and p: "parse_subject_body t =
        (let subject = strip (replace head Subject_marker []); body = strip tail
         in if subject \<noteq> [] \<and> body \<noteq> [] then (subject, body)
            else (lit ''Generated Email'', strip t))"
    using parse_subject_body_split [of t] by blast
  from c have "t = head @ Body_marker @ tail" by (rule cut_first_decomp)
  moreover from c have "\<forall>h r. t = h @ Body_marker @ r \<longrightarrow> length head \<le> length h"
    using cut_first_leftmost by blast
  ultimately show "\<exists>head tail.
          t = head @ Body_marker @ tail \<and>
          (\<forall>h r. t = h @ Body_marker @ r \<longrightarrow> length head \<le> length h) \<and>
          parse_subject_body t =
            (let subject = strip (replace head Subject_marker []); body = strip tail
             in if subject \<noteq> [] \<and> body \<noteq> [] then (subject, body)
                else (lit ''Generated Email'', strip t))"
    using p by blast
next
  show "parse_subject_body (lit ''Subject: Hi'' @ [10] @ lit ''Body: Hello there'') =
     (lit ''Hi'', lit ''Hello there'')"
    by (simp add: ev)
next
  show "parse_subject_body (lit ''Body: first Subject: second'') =
     (lit ''Generated Email'', lit ''Body: first Subject: second'')"
    by (simp add: ev)
qed

theorem parse_subject_body_split_rule_witness:
  "sublist Subject_marker (lit ''Subject: Hi'' @ [10] @ lit ''Body: Hello there'') \<and>
   sublist Body_marker (lit ''Subject: Hi'' @ [10] @ lit ''Body: Hello there'') \<and>
   (\<exists>head tail.
      lit ''Subject: Hi'' @ [10] @ lit ''Body: Hello there'' = head @ Body_marker @ tail \<and>
      (\<forall>h r. lit ''Subject: Hi'' @ [10] @ lit ''Body: Hello there'' = h @ Body_marker @ r
         \<longrightarrow> length head \<le> length h) \<and>
      parse_subject_body (lit ''Subject: Hi'' @ [10] @ lit ''Body: Hello there'') =
        (let subject = strip (replace head Subject_marker []); body = strip tail
         in if subject \<noteq> [] \<and> body \<noteq> [] then (subject, body)
            else (lit ''Generated Email'',
                  strip (lit ''Subject: Hi'' @ [10] @ lit ''Body: Hello there''))))"
proof -
  have s: "sublist Subject_marker (lit ''Subject: Hi'' @ [10] @ lit ''Body: Hello there'')"
    by (simp add: Subject_marker_def sublist_Cons_right)
  have b: "sublist Body_marker (lit ''Subject: Hi'' @ [10] @ lit ''Body: Hello there'')"
    by (simp add: Body_marker_def sublist_Cons_right)
  from s b show ?thesis
    using parse_subject_body_split_rule [of "lit ''Subject: Hi'' @ [10] @ lit ''Body: Hello there''"]
    by blast
qed

text \<open>
  Claim C3, as amended. The subject returned is never empty, and the body returned is
  non-empty exactly when the text has a character that is no whitespace: a text of
  whitespace only, although non-empty, is parsed to an empty body.
\<close>

theorem parse_subject_body_nonempty:
  "fst (parse_subject_body t) \<noteq> [] \<and>
   (snd (parse_subject_body t) \<noteq> [] \<longleftrightarrow> (\<exists>c\<in>set t. \<not> isspace c)) \<and>
   ((\<forall>c\<in>set t. isspace c) \<longrightarrow> parse_subject_body t = (lit ''Generated Email'', []))"
proof -
  have ge: "lit ''Generated Email'' \<noteq> []" by simp
  have fb: "strip t \<noteq> [] \<longleftrightarrow> (\<exists>c\<in>set t. \<not> isspace c)"
    by (simp add: strip_eq_Nil_iff)
  have cases: "parse_subject_body t = (lit ''Generated Email'', strip t) \<or>
      (fst (parse_subject_body t) \<noteq> [] \<and> snd (parse_subject_body t) \<noteq> [] \<and>
       (\<exists>head tail. t = head @ Body_marker @ tail \<and> snd (parse_subject_body t) = strip tail))"
  proof (cases "sublist Subject_marker t \<and> sublist Body_marker t")
    case False
    then show ?thesis by (auto simp: parse_subject_body_def parse_fallback_def)
  next
    case True
    then obtain head tail where c: "cut_first Body_marker t = Some (head, tail)"
      and p: "parse_subject_body t =
        (let subject = strip (replace head Subject_marker []); body = strip tail
         in if subject \<noteq> [] \<and> body \<noteq> [] then (subject, body)
            else (lit ''Generated Email'', strip t))"
      using parse_subject_body_split [of t] by blast
    from c have "t = head @ Body_marker @ tail" by (rule cut_first_decomp)
    with p show ?thesis by (auto simp: Let_def)
  qed
  have nsp: "\<exists>c\<in>set t. \<not> isspace c" if "t = head @ Body_marker @ tail" for head tail
    using that by (auto simp: Body_marker_def isspace_def)
  from cases show ?thesis
  proof
    assume "parse_subject_body t = (lit ''Generated Email'', strip t)"
    with ge fb show ?thesis by (auto simp: strip_eq_Nil_iff)
  next
    assume "fst (parse_subject_body t) \<noteq> [] \<and> snd (parse_subject_body t) \<noteq> [] \<and>
       (\<exists>head tail. t = head @ Body_marker @ tail \<and> snd (parse_subject_body t) = strip tail)"
    with nsp show ?thesis by blast
  qed
qed

theorem parse_subject_body_nonempty_witness:
  "(\<exists>c\<in>set (lit ''  ok''). \<not> isspace c) \<and> snd (parse_subject_body (lit ''  ok'')) \<noteq> [] \<and>
   isspace 32 \<and> isspace 10 \<and> parse_subject_body [32, 10] = (lit ''Generated Email'', [])"
  using parse_subject_body_nonempty [of "lit ''  ok''"] parse_subject_body_nonempty [of "[32, 10]"]
  by (simp add: isspace_def)

theorem parse_subject_body_blank_counterexample:
  "[32] \<noteq> ([] :: pystr) \<and> snd (parse_subject_body [32]) = []"
  by (simp add: ev)

text \<open>
  Claim C4, as amended. When the call to the generation service raises an exception
  that derives from \<open>Exception\<close>, the adapter returns the fallback text and logs the
  failure: the text is non-empty, contains \<open>Fallback response\<close> and contains the prompt
  verbatim. An exception that derives from \<open>BaseException\<close> only is not caught and
  leaves the adapter.
\<close>

theorem generate_with_gemini_fallback:
  "(model (request_content prompt system_instruction) = Inl (OfException e) \<longrightarrow>
     (\<exists>out log. generate_with_gemini model prompt system_instruction = Inr (out, log) \<and>
        out = fallback_generation
                (prompt @ [10, 10] @ lit ''(Note: Fallback used due to: '' @ str_exn e @ lit '')'') \<and>
        out \<noteq> [] \<and> sublist (lit ''Fallback response'') out \<and> sublist prompt out)) \<and>
   (model (request_content prompt system_instruction) = Inl (OfBaseException e) \<longrightarrow>
      generate_with_gemini model prompt system_instruction = Inl (OfBaseException e))"
proof (intro conjI impI)
  assume r: "model (request_content prompt system_instruction) = Inl (OfException e)"
  define out where "out = fallback_generation
      (prompt @ [10, 10] @ lit ''(Note: Fallback used due to: '' @ str_exn e @ lit '')'')"
  have g: "generate_with_gemini model prompt system_instruction =
      Inr (out, [LogError (lit ''Gemini API call failed: '' @ str_exn e)])"
    using r by (simp add: generate_with_gemini_def generate_try_def out_def)
  have m: "lit ''(Fallback response)'' = [40] @ lit ''Fallback response'' @ [41]"
    by simp
  have f: "out = [40] @ lit ''Fallback response'' @
      ([41, 10, 10] @ lit ''Could not connect to Gemini. Prompt was:'' @ [10] @ prompt @
       [10, 10] @ lit ''(Note: Fallback used due to: '' @ str_exn e @ lit '')'')"
    unfolding out_def fallback_generation_def m by simp
  have p: "out = (lit ''(Fallback response)'' @ [10, 10] @
       lit ''Could not connect to Gemini. Prompt was:'' @ [10]) @ prompt @
      ([10, 10] @ lit ''(Note: Fallback used due to: '' @ str_exn e @ lit '')'')"
    unfolding out_def fallback_generation_def by simp
  have "sublist (lit ''Fallback response'') out"
    unfolding f by (rule sublist_appendI)
  moreover have "sublist prompt out"
    unfolding p by (rule sublist_appendI)
  moreover have "out \<noteq> []" unfolding f by simp
  ultimately show "\<exists>out log. generate_with_gemini model prompt system_instruction = Inr (out, log) \<and>
        out = fallback_generation
                (prompt @ [10, 10] @ lit ''(Note: Fallback used due to: '' @ str_exn e @ lit '')'') \<and>
        out \<noteq> [] \<and> sublist (lit ''Fallback response'') out \<and> sublist prompt out"
    using g out_def by blast
next
  assume "model (request_content prompt system_instruction) = Inl (OfBaseException e)"
  then show "generate_with_gemini model prompt system_instruction = Inl (OfBaseException e)"
    by (simp add: generate_with_gemini_def generate_try_def)
qed

theorem generate_with_gemini_fallback_witness:
  "(\<lambda>c. Inl (OfException (Exn (lit ''quota'')))) (request_content (lit ''Hi'') None) =
     (Inl (OfException (Exn (lit ''quota''))) :: raised + response) \<and>
   (\<exists>out log.
      generate_with_gemini (\<lambda>c. Inl (OfException (Exn (lit ''quota'')))) (lit ''Hi'') None =
        Inr (out, log) \<and>
      out \<noteq> [] \<and> sublist (lit ''Fallback response'') out \<and> sublist (lit ''Hi'') out) \<and>
   (\<lambda>c. Inl (OfBaseException (Exn []))) (request_content (lit ''Hi'') None) =
     (Inl (OfBaseException (Exn [])) :: raised + response) \<and>
   generate_with_gemini (\<lambda>c. Inl (OfBaseException (Exn []))) (lit ''Hi'') None =
     Inl (OfBaseException (Exn []))"
  using generate_with_gemini_fallback
    [of "\<lambda>c. Inl (OfException (Exn (lit ''quota'')))" "lit ''Hi''" None "Exn (lit ''quota'')"]
    generate_with_gemini_fallback
    [of "\<lambda>c. Inl (OfBaseException (Exn []))" "lit ''Hi''" None "Exn []"]
  by blast

theorem generate_with_gemini_interrupt_counterexample:
  "generate_with_gemini (\<lambda>c. Inl (OfBaseException (Exn []))) (lit ''Hi'') None =
     Inl (OfBaseException (Exn []))"
  by (simp add: generate_with_gemini_def generate_try_def)

section \<open>Properties of the store\<close>

lemma array_union_single:
  "array_union xs [e] = (if e \<in> set xs then xs else xs @ [e])"
  by (simp add: array_union_def)

lemma array_remove_single:
  "array_remove xs [e] = filter (\<lambda>x. x \<noteq> e) xs"
  by (simp add: array_remove_def)

lemma ensure_user_doc_up:
  assumes "store_up env"
  shows "\<exists>db1. ensure_user_doc env db uid = Inr db1 \<and> db1 uid \<noteq> None \<and>
           stored_emails db1 uid = stored_emails db uid \<and>
           (\<forall>u. u \<noteq> uid \<longrightarrow> db1 u = db u) \<and> (db uid \<noteq> None \<longrightarrow> db1 = db)"
proof (cases "db uid")
  case None
  with assms show ?thesis
    by (simp add: ensure_user_doc_def fs_get_def fs_set_def store_up_def stored_emails_def)
next
  case (Some doc)
  with assms show ?thesis
    by (simp add: ensure_user_doc_def fs_get_def store_up_def)
qed

lemma fs_update_up:
  assumes "store_up env" "db1 uid \<noteq> None"
  shows "\<exists>db2. fs_update env db1 uid emails_field tr = Inr db2 \<and> db2 uid \<noteq> None \<and>
           stored_emails db2 uid =
             apply_transform tr (Some (stored_emails db1 uid)) \<and>
           (\<forall>u. u \<noteq> uid \<longrightarrow> db2 u = db1 u)"
proof -
  from assms(2) obtain doc where d: "db1 uid = Some doc" by blast
  have "apply_transform tr (doc emails_field) =
      apply_transform tr (Some (case doc emails_field of None \<Rightarrow> [] | Some xs \<Rightarrow> xs))"
    by (simp add: apply_transform_def split: option.splits)
  with assms(1) d show ?thesis
    by (simp add: fs_update_def store_up_def stored_emails_def)
qed

lemma save_email_up:
  assumes "store_up env"
  shows "\<exists>db'. save_email env db uid e = Inr (db', []) \<and> db' uid \<noteq> None \<and>
           stored_emails db' uid =
             (if e \<in> set (stored_emails db uid) then stored_emails db uid
              else stored_emails db uid @ [e]) \<and>
           (\<forall>u. u \<noteq> uid \<longrightarrow> db' u = db u)"
proof -
  from ensure_user_doc_up [OF assms, of db uid] obtain db1 where
    e: "ensure_user_doc env db uid = Inr db1" "db1 uid \<noteq> None"
       "stored_emails db1 uid = stored_emails db uid" "\<forall>u. u \<noteq> uid \<longrightarrow> db1 u = db u"
    by blast
  have "\<exists>db2. fs_update env db1 uid emails_field (ArrayUnion [e]) = Inr db2 \<and> db2 uid \<noteq> None \<and>
           stored_emails db2 uid = apply_transform (ArrayUnion [e]) (Some (stored_emails db1 uid)) \<and>
           (\<forall>u. u \<noteq> uid \<longrightarrow> db2 u = db1 u)"
    using assms e(2) by (rule fs_update_up)
  then obtain db2 where
    u: "fs_update env db1 uid emails_field (ArrayUnion [e]) = Inr db2" "db2 uid \<noteq> None"
       "stored_emails db2 uid = apply_transform (ArrayUnion [e]) (Some (stored_emails db1 uid))"
       "\<forall>u. u \<noteq> uid \<longrightarrow> db2 u = db1 u"
    by blast
  have "save_email env db uid e = Inr (db2, [])"
    by (simp add: save_email_def e(1) u(1))
  moreover have "stored_emails db2 uid =
      (if e \<in> set (stored_emails db uid) then stored_emails db uid else stored_emails db uid @ [e])"
    by (simp add: u(3) e(3) apply_transform_def array_union_single)
  ultimately show ?thesis using u(2,4) e(4) by auto
qed

lemma remove_email_up:
  assumes "store_up env"
  shows "\<exists>db'. remove_email env db uid e = Inr (db', []) \<and>
           stored_emails db' uid = filter (\<lambda>x. x \<noteq> e) (stored_emails db uid) \<and>
           (\<forall>u. u \<noteq> uid \<longrightarrow> db' u = db u)"
proof -
  from ensure_user_doc_up [OF assms, of db uid] obtain db1 where
    e: "ensure_user_doc env db uid = Inr db1" "db1 uid \<noteq> None"
       "stored_emails db1 uid = stored_emails db uid" "\<forall>u. u \<noteq> uid \<longrightarrow> db1 u = db u"
    by blast
  have "\<exists>db2. fs_update env db1 uid emails_field (ArrayRemove [e]) = Inr db2 \<and> db2 uid \<noteq> None \<and>
           stored_emails db2 uid = apply_transform (ArrayRemove [e]) (Some (stored_emails db1 uid)) \<and>
           (\<forall>u. u \<noteq> uid \<longrightarrow> db2 u = db1 u)"
    using assms e(2) by (rule fs_update_up)
  then obtain db2 where
    u: "fs_update env db1 uid emails_field (ArrayRemove [e]) = Inr db2" "db2 uid \<noteq> None"
       "stored_emails db2 uid = apply_transform (ArrayRemove [e]) (Some (stored_emails db1 uid))"
       "\<forall>u. u \<noteq> uid \<longrightarrow> db2 u = db1 u"
    by blast
  have "remove_email env db uid e = Inr (db2, [])"
    by (simp add: remove_email_def e(1) u(1))
  moreover have "stored_emails db2 uid = filter (\<lambda>x. x \<noteq> e) (stored_emails db uid)"
    by (simp add: u(3) e(3) apply_transform_def array_remove_single)
  ultimately show ?thesis using u(4) e(4) by auto
qed

text \<open>
  Claim C5. While the store answers, \<open>save_email\<close> leaves the stored sequence as it is
  when it holds an element equal to the email, and appends the email at the end
  otherwise; other users' documents are untouched. Saving the same email a second time
  changes nothing more, and an email that was stored at most once before is stored
  exactly once after.
\<close>

theorem save_email_union:
  "store_up env \<longrightarrow>
     (\<exists>db1 db2.
        save_email env db uid e = Inr (db1, []) \<and>
        stored_emails db1 uid =
          (if e \<in> set (stored_emails db uid) then stored_emails db uid
           else stored_emails db uid @ [e]) \<and>
        (\<forall>u. u \<noteq> uid \<longrightarrow> db1 u = db u) \<and>
        save_email env db1 uid e = Inr (db2, []) \<and>
        stored_emails db2 uid = stored_emails db1 uid \<and>
        (count_list (stored_emails db uid) e \<le> 1 \<longrightarrow> count_list (stored_emails db2 uid) e = 1))"
proof
  assume up: "store_up env"
  from save_email_up [OF up, of db uid e] obtain db1 where
    s1: "save_email env db uid e = Inr (db1, [])"
        "stored_emails db1 uid =
          (if e \<in> set (stored_emails db uid) then stored_emails db uid
           else stored_emails db uid @ [e])"
        "\<forall>u. u \<noteq> uid \<longrightarrow> db1 u = db u"
    by blast
  from save_email_up [OF up, of db1 uid e] obtain db2 where
    s2: "save_email env db1 uid e = Inr (db2, [])"
        "stored_emails db2 uid =
          (if e \<in> set (stored_emails db1 uid) then stored_emails db1 uid
           else stored_emails db1 uid @ [e])"
    by blast
  from s1(2) have mem: "e \<in> set (stored_emails db1 uid)" by (simp split: if_splits)
  with s2(2) have same: "stored_emails db2 uid = stored_emails db1 uid" by simp
  have "count_list (stored_emails db1 uid) e = 1" if "count_list (stored_emails db uid) e \<le> 1"
  proof (cases "e \<in> set (stored_emails db uid)")
    case True
    then have "count_list (stored_emails db uid) e \<noteq> 0" by (simp add: count_list_0_iff)
    with that True s1(2) show ?thesis by simp
  next
    case False
    then have "count_list (stored_emails db uid) e = 0" by (simp add: count_list_0_iff)
    with False s1(2) show ?thesis by simp
  qed
  with s1 s2(1) same show "\<exists>db1 db2.
        save_email env db uid e = Inr (db1, []) \<and>
        stored_emails db1 uid =
          (if e \<in> set (stored_emails db uid) then stored_emails db uid
           else stored_emails db uid @ [e]) \<and>
        (\<forall>u. u \<noteq> uid \<longrightarrow> db1 u = db u) \<and>
        save_email env db1 uid e = Inr (db2, []) \<and>
        stored_emails db2 uid = stored_emails db1 uid \<and>
        (count_list (stored_emails db uid) e \<le> 1 \<longrightarrow> count_list (stored_emails db2 uid) e = 1)"
    by auto
qed

theorem save_email_union_witness:
  "store_up \<lparr>get_fault = None, set_fault = None, update_fault = None\<rparr> \<and>
   count_list (stored_emails (Map.empty :: email database) (lit ''a@b.c''))
     \<lparr>subject = lit ''Hi'', body = lit ''Yo''\<rparr> \<le> 1 \<and>
   (\<exists>db1 db2.
      save_email \<lparr>get_fault = None, set_fault = None, update_fault = None\<rparr> Map.empty
        (lit ''a@b.c'') \<lparr>subject = lit ''Hi'', body = lit ''Yo''\<rparr> = Inr (db1, []) \<and>
      stored_emails db1 (lit ''a@b.c'') = [\<lparr>subject = lit ''Hi'', body = lit ''Yo''\<rparr>] \<and>
      save_email \<lparr>get_fault = None, set_fault = None, update_fault = None\<rparr> db1
        (lit ''a@b.c'') \<lparr>subject = lit ''Hi'', body = lit ''Yo''\<rparr> = Inr (db2, []) \<and>
      stored_emails db2 (lit ''a@b.c'') = [\<lparr>subject = lit ''Hi'', body = lit ''Yo''\<rparr>] \<and>
      count_list (stored_emails db2 (lit ''a@b.c'')) \<lparr>subject = lit ''Hi'', body = lit ''Yo''\<rparr> = 1)"
proof -
  have up: "store_up \<lparr>get_fault = None, set_fault = None, update_fault = None\<rparr>"
    by (simp add: store_up_def)
  have em: "stored_emails (Map.empty :: email database) (lit ''a@b.c'') = []"
    by (simp add: stored_emails_def)
  from up em show ?thesis
    using save_email_union [of "\<lparr>get_fault = None, set_fault = None, update_fault = None\<rparr>"
        "Map.empty :: email database" "lit ''a@b.c''" "\<lparr>subject = lit ''Hi'', body = lit ''Yo''\<rparr>"]
    by auto
qed

lemma fs_update_same:
  assumes "store_up env" "db uid = Some doc" "doc emails_field = Some xs"
    "apply_transform tr (Some xs) = xs"
  shows "fs_update env db uid emails_field tr = Inr db"
proof -
  have "doc(emails_field \<mapsto> xs) = doc" using assms(3) by (rule map_upd_triv)
  moreover have "db(uid \<mapsto> doc) = db" using assms(2) by (rule map_upd_triv)
  ultimately show ?thesis
    using assms by (simp add: fs_update_def store_up_def)
qed

lemma remove_email_absent:
  assumes "store_up env" "db uid = Some doc" "doc emails_field = Some xs" "e \<notin> set xs"
  shows "remove_email env db uid e = Inr (db, [])"
proof -
  have "ensure_user_doc env db uid = Inr db"
    using assms(1,2) by (simp add: ensure_user_doc_def fs_get_def store_up_def)
  moreover have "filter (\<lambda>x. x \<noteq> e) xs = xs"
    using assms(4) by (induction xs) auto
  then have "apply_transform (ArrayRemove [e]) (Some xs) = xs"
    by (simp add: apply_transform_def array_remove_single)
  with assms(1-3) have "fs_update env db uid emails_field (ArrayRemove [e]) = Inr db"
    by (rule fs_update_same)
  ultimately show ?thesis by (simp add: remove_email_def)
qed

text \<open>
  Claim C6. While the store answers, \<open>remove_email\<close> deletes from the stored sequence
  every element equal to the email and keeps the other elements in their order; other
  users' documents are untouched. When no stored element equals the email the sequence
  is unchanged and nothing is reported, and a document that has the field \<open>emails\<close> is
  left exactly as it was.
\<close>

theorem remove_email_exact:
  "store_up env \<longrightarrow>
     (\<exists>db1.
        remove_email env db uid e = Inr (db1, []) \<and>
        stored_emails db1 uid = filter (\<lambda>x. x \<noteq> e) (stored_emails db uid) \<and>
        e \<notin> set (stored_emails db1 uid) \<and>
        subseq (stored_emails db1 uid) (stored_emails db uid) \<and>
        (\<forall>u. u \<noteq> uid \<longrightarrow> db1 u = db u) \<and>
        (e \<notin> set (stored_emails db uid) \<longrightarrow>
           stored_emails db1 uid = stored_emails db uid \<and>
           (\<forall>doc xs. db uid = Some doc \<and> doc emails_field = Some xs \<longrightarrow> db1 = db)))"
proof
  assume up: "store_up env"
  from remove_email_up [OF up, of db uid e] obtain db1 where
    r: "remove_email env db uid e = Inr (db1, [])"
       "stored_emails db1 uid = filter (\<lambda>x. x \<noteq> e) (stored_emails db uid)"
       "\<forall>u. u \<noteq> uid \<longrightarrow> db1 u = db u"
    by blast
  have noop: "stored_emails db1 uid = stored_emails db uid" if "e \<notin> set (stored_emails db uid)"
    using that r(2) by (auto simp: filter_id_conv)
  have same: "db1 = db"
    if "e \<notin> set (stored_emails db uid)" "db uid = Some doc" "doc emails_field = Some xs"
    for doc xs
  proof -
    from that have "e \<notin> set xs" by (simp add: stored_emails_def)
    with up that(2,3) have "remove_email env db uid e = Inr (db, [])"
      by (rule remove_email_absent)
    with r(1) show ?thesis by simp
  qed
  from r noop same show "\<exists>db1.
        remove_email env db uid e = Inr (db1, []) \<and>
        stored_emails db1 uid = filter (\<lambda>x. x \<noteq> e) (stored_emails db uid) \<and>
        e \<notin> set (stored_emails db1 uid) \<and>
        subseq (stored_emails db1 uid) (stored_emails db uid) \<and>
        (\<forall>u. u \<noteq> uid \<longrightarrow> db1 u = db u) \<and>
        (e \<notin> set (stored_emails db uid) \<longrightarrow>
           stored_emails db1 uid = stored_emails db uid \<and>
           (\<forall>doc xs. db uid = Some doc \<and> doc emails_field = Some xs \<longrightarrow> db1 = db))"
    by auto
qed

theorem remove_email_exact_witness:
  "store_up \<lparr>get_fault = None, set_fault = None, update_fault = None\<rparr> \<and>
   \<lparr>subject = lit ''Hi'', body = lit ''Dear Sir.''\<rparr> \<notin> set (stored_emails example_db (lit ''a@b.c'')) \<and>
   example_db (lit ''a@b.c'') \<noteq> None \<and>
   remove_email \<lparr>get_fault = None, set_fault = None, update_fault = None\<rparr> example_db
     (lit ''a@b.c'') \<lparr>subject = lit ''Hi'', body = lit ''Dear Sir.''\<rparr> = Inr (example_db, []) \<and>
   (\<exists>db1. remove_email \<lparr>get_fault = None, set_fault = None, update_fault = None\<rparr> example_db
       (lit ''a@b.c'') \<lparr>subject = lit ''Hi'', body = lit ''Dear Sir''\<rparr> = Inr (db1, []) \<and>
     stored_emails db1 (lit ''a@b.c'') = [\<lparr>subject = lit ''Re'', body = lit ''Thanks''\<rparr>])"
proof -
  have up: "store_up \<lparr>get_fault = None, set_fault = None, update_fault = None\<rparr>"
    by (simp add: store_up_def)
  have st: "stored_emails example_db (lit ''a@b.c'') =
      [\<lparr>subject = lit ''Hi'', body = lit ''Dear Sir''\<rparr>, \<lparr>subject = lit ''Re'', body = lit ''Thanks''\<rparr>]"
    by (simp add: stored_emails_def example_db_def)
  have d: "example_db (lit ''a@b.c'') =
      Some [emails_field \<mapsto> [\<lparr>subject = lit ''Hi'', body = lit ''Dear Sir''\<rparr>,
                               \<lparr>subject = lit ''Re'', body = lit ''Thanks''\<rparr>]]"
    by (simp add: example_db_def)
  from up st d show ?thesis
    using remove_email_exact [of "\<lparr>get_fault = None, set_fault = None, update_fault = None\<rparr>"
        example_db "lit ''a@b.c''" "\<lparr>subject = lit ''Hi'', body = lit ''Dear Sir.''\<rparr>"]
      remove_email_exact [of "\<lparr>get_fault = None, set_fault = None, update_fault = None\<rparr>"
        example_db "lit ''a@b.c''" "\<lparr>subject = lit ''Hi'', body = lit ''Dear Sir''\<rparr>"]
    by auto
qed

section \<open>Properties of the extractor\<close>

lemma pdf_pages_loop_filter:
  "pdf_pages_loop texts pages = texts @ filter (\<lambda>t. t \<noteq> []) (returned_texts pages)"
  by (induction pages arbitrary: texts) (auto simp: returned_texts_def split: sum.splits)

text \<open>
  Claim C7, as amended. Extraction has a result for every file: a document that cannot
  be opened gives the empty string, from either extractor. From a PDF that opens, a
  page whose extraction raises is skipped and the pages after it are still read; of the
  texts extracted, the non-empty ones are joined with single spaces (an empty page text
  is left out, so it adds no space). The paragraphs of a DOCX file are all joined.
\<close>

theorem extract_text_degrades:
  "fst (extract_text_from_pdf (Inl e)) = [] \<and>
   fst (extract_text_from_docx (Inl e)) = [] \<and>
   extract_text_from_pdf (Inr pages) =
     (join [32] (filter (\<lambda>t. t \<noteq> []) (returned_texts pages)), []) \<and>
   extract_text_from_docx (Inr paragraphs) = (join [32] paragraphs, [])"
  by (simp add: extract_text_from_pdf_def extract_text_from_docx_def pdf_pages_loop_filter)

theorem extract_text_empty_page_counterexample:
  "extract_text_from_pdf (Inr [Inr (lit ''a''), Inr [], Inr (lit ''b'')]) = (lit ''a b'', []) \<and>
   join [32] (returned_texts [Inr (lit ''a''), Inr [], Inr (lit ''b'')]) = lit ''a  b''"
  by (simp add: extract_text_from_pdf_def returned_texts_def)

text \<open>
  Claim C10. For a declared type other than \<open>pdf\<close>, \<open>doc\<close> and \<open>docx\<close>, \<open>analyze_cv\<close>
  returns the empty string whatever the file is, and logs nothing: no extractor runs.
\<close>

theorem analyze_cv_other_type:
  "file_type \<notin> {lit ''pdf'', lit ''doc'', lit ''docx''} \<longrightarrow> analyze_cv file file_type = ([], [])"
  by (simp add: analyze_cv_def)

theorem analyze_cv_other_type_witness:
  "lit ''txt'' \<notin> {lit ''pdf'', lit ''doc'', lit ''docx''} \<and>
   analyze_cv \<lparr>as_pdf = Inr [Inr (lit ''cv'')], as_docx = Inr [lit ''cv'']\<rparr> (lit ''txt'') = ([], [])"
  using analyze_cv_other_type
    [of "lit ''txt''" "\<lparr>as_pdf = Inr [Inr (lit ''cv'')], as_docx = Inr [lit ''cv'']\<rparr>"]
  by simp

section \<open>Properties of the prompt builder\<close>

lemma sublist_concat_member: "x \<in> set xss \<Longrightarrow> sublist x (concat xss)"
proof -
  assume "x \<in> set xss"
  then obtain ps ss where "xss = ps @ x # ss" by (auto simp: in_set_conv_decomp)
  then have "concat xss = concat ps @ x @ concat ss" by simp
  then show ?thesis by (simp del: concat_append)
qed

lemma build_prompt_segments:
  "build_prompt r = concat
     [[10] @ indent @ lit ''You are an AI assistant that generates professional emails for students and early-career professionals.'' @ [10] @
      [10] @
      indent @ lit ''Generate an email with:'' @ [10] @
      indent @ lit ''- Subject line'' @ [10] @
      indent @ lit ''- Body text'' @ [10] @
      [10] @ indent,
      lit ''Student Name: '' @ student_name r, [10] @ indent,
      lit ''Recipient: '' @ recipient r, [10] @ indent,
      lit ''Purpose: '' @ purpose r, [10] @ indent,
      lit ''Additional Context: '' @ details r, [10] @ indent,
      lit ''Tone: '' @ tone r, [10] @ indent,
      lit ''Writing Style: '' @ style r, [10] @ indent,
      lit ''Formality Level: '' @ str_int (formality_level r) @ lit ''/100'', [10] @ indent,
      lit ''Language: '' @ language r, [10] @ indent,
      cv_clause (cv_text r), prompt_tail]"
  by (simp add: build_prompt_def prompt_head_def)

lemma build_prompt_cv:
  "build_prompt (r\<lparr>cv_text := cv\<rparr>) =
     prompt_head r @ (if cv = [] then [] else cv_label @ take 1000 cv) @ prompt_tail"
  by (simp add: build_prompt_def prompt_head_def cv_clause_def)

text \<open>
  Claim C8. The prompt contains each labelled field of the form, the formality level
  as its decimal number followed by \<open>/100\<close>. The text of the document enters the prompt
  at one place only: nothing when it is empty, and otherwise the CV sentence followed by
  the first 1000 characters of the text (the whole text when it is shorter).
\<close>

theorem build_prompt_contents:
  "sublist (lit ''Student Name: '' @ student_name r) (build_prompt r) \<and>
   sublist (lit ''Recipient: '' @ recipient r) (build_prompt r) \<and>
   sublist (lit ''Purpose: '' @ purpose r) (build_prompt r) \<and>
   sublist (lit ''Additional Context: '' @ details r) (build_prompt r) \<and>
   sublist (lit ''Tone: '' @ tone r) (build_prompt r) \<and>
   sublist (lit ''Writing Style: '' @ style r) (build_prompt r) \<and>
   sublist (lit ''Formality Level: '' @ str_int (formality_level r) @ lit ''/100'') (build_prompt r) \<and>
   sublist (lit ''Language: '' @ language r) (build_prompt r) \<and>
   str_int 70 = lit ''70'' \<and> str_int 0 = lit ''0'' \<and> str_int 100 = lit ''100'' \<and>
   (\<exists>pre post. \<forall>cv. \<exists>part.
      build_prompt (r\<lparr>cv_text := cv\<rparr>) =
        pre @ (if cv = [] then [] else cv_label @ part) @ post \<and>
      part = take 1000 cv \<and> prefix part cv \<and> length part = min 1000 (length cv))"
proof -
  have seg: "sublist x (build_prompt r)"
    if "x \<in> set [lit ''Student Name: '' @ student_name r, lit ''Recipient: '' @ recipient r,
        lit ''Purpose: '' @ purpose r, lit ''Additional Context: '' @ details r,
        lit ''Tone: '' @ tone r, lit ''Writing Style: '' @ style r,
        lit ''Formality Level: '' @ str_int (formality_level r) @ lit ''/100'',
        lit ''Language: '' @ language r]" for x
    unfolding build_prompt_segments
    by (rule sublist_concat_member) (use that in auto)
  have cv: "\<exists>pre post. \<forall>cv. \<exists>part.
      build_prompt (r\<lparr>cv_text := cv\<rparr>) =
        pre @ (if cv = [] then [] else cv_label @ part) @ post \<and>
      part = take 1000 cv \<and> prefix part cv \<and> length part = min 1000 (length cv)"
  proof (intro exI allI conjI)
    fix cv
    show "build_prompt (r\<lparr>cv_text := cv\<rparr>) =
        prompt_head r @ (if cv = [] then [] else cv_label @ take 1000 cv) @ prompt_tail"
      by (rule build_prompt_cv)
    show "take 1000 cv = take 1000 cv" ..
    show "prefix (take 1000 cv) cv" by (rule take_is_prefix)
    show "length (take 1000 cv) = min 1000 (length cv)" by simp
  qed
  have num: "str_int 70 = lit ''70''" "str_int 0 = lit ''0''" "str_int 100 = lit ''100''"
    by (simp_all add: str_int_def)
  show ?thesis
    by (intro conjI seg cv num) simp_all
qed

section \<open>Properties of the encodings\<close>

lemma b64_value_char: "i < 64 \<Longrightarrow> b64_value (b64_char i) = Some i"
  by (auto simp: b64_value_def b64_char_def)

lemma b64_char_bounds: "i < 64 \<Longrightarrow> b64_char i < 128 \<and> b64_char i \<noteq> 61"
  by (auto simp: b64_char_def)

lemma decode_ascii: "list_all (\<lambda>b. b < 128) bs \<Longrightarrow> decode bs = Inr bs"
  by (induction bs) simp_all

lemma b64_char_ascii: "i < 64 \<Longrightarrow> b64_char i < 128"
  by (simp add: b64_char_bounds)

lemma b64_char_not_pad: "i < 64 \<Longrightarrow> b64_char i \<noteq> 61"
  by (simp add: b64_char_bounds)

lemma b64encode_ascii:
  "list_all (\<lambda>b. b < 256) bs \<Longrightarrow> list_all (\<lambda>ch. ch < 128) (b64encode bs)"
proof (induction bs rule: b64encode.induct)
  case 1
  show ?case by simp
next
  case (2 a)
  then have "a < 256" by simp
  then have "a div 4 < 64" "(a mod 4) * 16 < 64" by simp_all
  then show ?case by (simp add: b64_char_ascii)
next
  case (3 a b)
  then have "a < 256" "b < 256" by simp_all
  then have "a div 4 < 64" "(a mod 4) * 16 + b div 16 < 64" "(b mod 16) * 4 < 64"
    by simp_all
  then show ?case by (simp add: b64_char_ascii)
next
  case (4 a b c rest)
  then have "a < 256" "b < 256" "c < 256" and rest: "list_all (\<lambda>b. b < 256) rest"
    by simp_all
  then have "a div 4 < 64" "(a mod 4) * 16 + b div 16 < 64"
      "(b mod 16) * 4 + c div 64 < 64" "c mod 64 < 64"
    by simp_all
  with "4.IH" [OF rest] show ?case by (simp add: b64_char_ascii)
qed

lemma b64decode_encode:
  "list_all (\<lambda>b. b < 256) bs \<Longrightarrow> b64decode (b64encode bs) = Some bs"
proof (induction bs rule: b64encode.induct)
  case 1
  show ?case by simp
next
  case (2 a)
  then have "a < 256" by simp
  then have s: "a div 4 < 64" "(a mod 4) * 16 < 64" by simp_all
  show ?case
    by (simp add: b64_value_char [OF s(1)] b64_value_char [OF s(2)])
next
  case (3 a b)
  then have ab: "a < 256" "b < 256" by simp_all
  from ab have s: "a div 4 < 64" "(a mod 4) * 16 + b div 16 < 64" "(b mod 16) * 4 < 64"
    by simp_all
  from ab have h: "b div 16 < 16" by simp
  show ?case
    using h
    by (simp add: b64_value_char [OF s(1)] b64_value_char [OF s(2)] b64_value_char [OF s(3)]
        b64_char_not_pad [OF s(3)])
next
  case (4 a b c rest)
  then have abc: "a < 256" "b < 256" "c < 256" and rest: "list_all (\<lambda>b. b < 256) rest"
    by simp_all
  from abc have s: "a div 4 < 64" "(a mod 4) * 16 + b div 16 < 64"
      "(b mod 16) * 4 + c div 64 < 64" "c mod 64 < 64"
    by simp_all
  from "4.IH" [OF rest] have ih: "b64decode (b64encode rest) = Some rest" .
  from abc have h: "b div 16 < 16" "c div 64 < 4" by simp_all
  show ?case
    using h
    by (simp add: b64_value_char [OF s(1)] b64_value_char [OF s(2)] b64_value_char [OF s(3)]
        b64_value_char [OF s(4)] b64_char_not_pad [OF s(3)] b64_char_not_pad [OF s(4)] ih)
qed

text \<open>A code point is the sum of its six-bit digits.\<close>

lemma two_digits: "x = y * 64 + z \<Longrightarrow> y * (64 * k) + z * k = x * (k::nat)"
  by (simp add: algebra_simps)

lemma split3: "c div 4096 * 4096 + c div 64 mod 64 * 64 + c mod 64 = (c::nat)"
proof -
  have a: "c div 4096 = c div 64 div 64" by (simp add: div_mult2_eq [symmetric])
  have "c div 64 = c div 64 div 64 * 64 + c div 64 mod 64" by simp
  then have "c div 64 div 64 * (64 * 64) + c div 64 mod 64 * 64 = c div 64 * 64"
    by (rule two_digits)
  then have "c div 4096 * 4096 + c div 64 mod 64 * 64 = c div 64 * 64"
    by (simp add: a)
  then show ?thesis by simp
qed

lemma split4:
  "c div 262144 * 262144 + c div 4096 mod 64 * 4096 + c div 64 mod 64 * 64 + c mod 64 = (c::nat)"
proof -
  have a: "c div 262144 = c div 4096 div 64" by (simp add: div_mult2_eq [symmetric])
  have "c div 4096 = c div 4096 div 64 * 64 + c div 4096 mod 64" by simp
  then have "c div 4096 div 64 * (64 * 4096) + c div 4096 mod 64 * 4096 = c div 4096 * 4096"
    by (rule two_digits)
  then have "c div 262144 * 262144 + c div 4096 mod 64 * 4096 = c div 4096 * 4096"
    by (simp add: a)
  with split3 [of c] show ?thesis by simp
qed

lemma decode2:
  "2 \<le> d \<Longrightarrow> d < 32 \<Longrightarrow> m < 64 \<Longrightarrow>
   decode ((0xC0 + d) # (0x80 + m) # rest) =
     (case decode rest of Inl e \<Rightarrow> Inl e | Inr cs \<Rightarrow> Inr ((d * 64 + m) # cs))"
  by (simp add: is_cont_def split: sum.splits)

lemma decode3:
  "d < 16 \<Longrightarrow> e < 64 \<Longrightarrow> m < 64 \<Longrightarrow> 0x800 \<le> d * 4096 + e * 64 + m \<Longrightarrow>
   \<not> (0xD800 \<le> d * 4096 + e * 64 + m \<and> d * 4096 + e * 64 + m \<le> 0xDFFF) \<Longrightarrow>
   decode ((0xE0 + d) # (0x80 + e) # (0x80 + m) # rest) =
     (case decode rest of Inl x \<Rightarrow> Inl x | Inr cs \<Rightarrow> Inr ((d * 4096 + e * 64 + m) # cs))"
  by (simp add: is_cont_def Let_def split: sum.splits)

lemma decode4:
  "d < 5 \<Longrightarrow> e < 64 \<Longrightarrow> f < 64 \<Longrightarrow> m < 64 \<Longrightarrow>
   0x10000 \<le> d * 262144 + e * 4096 + f * 64 + m \<Longrightarrow>
   d * 262144 + e * 4096 + f * 64 + m < 0x110000 \<Longrightarrow>
   decode ((0xF0 + d) # (0x80 + e) # (0x80 + f) # (0x80 + m) # rest) =
     (case decode rest of Inl x \<Rightarrow> Inl x
      | Inr cs \<Rightarrow> Inr ((d * 262144 + e * 4096 + f * 64 + m) # cs))"
  by (simp add: is_cont_def Let_def split: sum.splits)

lemma utf8_char_decode:
  assumes "is_scalar c"
  shows "\<exists>bs. utf8_char c = Inr bs \<and> list_all (\<lambda>b. b < 256) bs \<and>
           (\<forall>rest. decode (bs @ rest) =
              (case decode rest of Inl e \<Rightarrow> Inl e | Inr cs \<Rightarrow> Inr (c # cs)))"
proof -
  from assms have r: "c < 0x110000" "\<not> (0xD800 \<le> c \<and> c \<le> 0xDFFF)"
    by (simp_all add: is_scalar_def)
  consider (one) "c < 0x80" | (two) "0x80 \<le> c" "c < 0x800"
    | (three) "0x800 \<le> c" "c < 0x10000" | (four) "0x10000 \<le> c"
    by linarith
  then show ?thesis
  proof cases
    case one
    then have "utf8_char c = Inr [c]" by (simp add: utf8_char_def)
    moreover from one have "decode ([c] @ rest) =
        (case decode rest of Inl e \<Rightarrow> Inl e | Inr cs \<Rightarrow> Inr (c # cs))" for rest
      by simp
    moreover from one have "list_all (\<lambda>b. b < 256) [c]" by simp
    ultimately show ?thesis by blast
  next
    case two
    define d m where "d = c div 64" and "m = c mod 64"
    have m: "m < 64" by (simp add: m_def)
    have d: "2 \<le> d" "d < 32"
      using two div_le_mono [of 128 c 64] less_mult_imp_div_less [of c 32 64]
      by (simp_all add: d_def)
    have v: "d * 64 + m = c" by (simp add: d_def m_def)
    from two have "utf8_char c = Inr [0xC0 + d, 0x80 + m]"
      by (simp add: utf8_char_def d_def m_def)
    moreover have "decode ([0xC0 + d, 0x80 + m] @ rest) =
        (case decode rest of Inl e \<Rightarrow> Inl e | Inr cs \<Rightarrow> Inr (c # cs))" for rest
      by (simp only: append.simps decode2 [OF d m] v)
    moreover from d m have "list_all (\<lambda>b. b < 256) [0xC0 + d, 0x80 + m]" by simp
    ultimately show ?thesis by blast
  next
    case three
    define d e m where "d = c div 4096" and "e = c div 64 mod 64" and "m = c mod 64"
    have m: "m < 64" and e: "e < 64" by (simp_all add: m_def e_def)
    have d: "d < 16"
      using three less_mult_imp_div_less [of c 16 4096] by (simp add: d_def)
    have v: "d * 4096 + e * 64 + m = c" unfolding d_def e_def m_def by (rule split3)
    from three r have "utf8_char c = Inr [0xE0 + d, 0x80 + e, 0x80 + m]"
      by (simp add: utf8_char_def d_def e_def m_def)
    moreover have "decode ([0xE0 + d, 0x80 + e, 0x80 + m] @ rest) =
        (case decode rest of Inl e \<Rightarrow> Inl e | Inr cs \<Rightarrow> Inr (c # cs))" for rest
    proof -
      from three r v have c: "0x800 \<le> d * 4096 + e * 64 + m"
          "\<not> (0xD800 \<le> d * 4096 + e * 64 + m \<and> d * 4096 + e * 64 + m \<le> 0xDFFF)"
        by simp_all
      show ?thesis by (simp only: append.simps decode3 [OF d e m c] v)
    qed
    moreover from d e m have "list_all (\<lambda>b. b < 256) [0xE0 + d, 0x80 + e, 0x80 + m]"
      by simp
    ultimately show ?thesis by blast
  next
    case four
    define d e f m where "d = c div 262144" and "e = c div 4096 mod 64"
      and "f = c div 64 mod 64" and "m = c mod 64"
    have m: "m < 64" and e: "e < 64" and f: "f < 64" by (simp_all add: m_def e_def f_def)
    have d: "d < 5"
      using r less_mult_imp_div_less [of c 5 262144] by (simp add: d_def)
    have v: "d * 262144 + e * 4096 + f * 64 + m = c"
      unfolding d_def e_def f_def m_def by (rule split4)
    from four r have "utf8_char c = Inr [0xF0 + d, 0x80 + e, 0x80 + f, 0x80 + m]"
      by (simp add: utf8_char_def d_def e_def f_def m_def)
    moreover have "decode ([0xF0 + d, 0x80 + e, 0x80 + f, 0x80 + m] @ rest) =
        (case decode rest of Inl e \<Rightarrow> Inl e | Inr cs \<Rightarrow> Inr (c # cs))" for rest
    proof -
      from four r v have c: "0x10000 \<le> d * 262144 + e * 4096 + f * 64 + m"
          "d * 262144 + e * 4096 + f * 64 + m < 0x110000"
        by simp_all
      show ?thesis by (simp only: append.simps decode4 [OF d e f m c] v)
    qed
    moreover from d e f m
    have "list_all (\<lambda>b. b < 256) [0xF0 + d, 0x80 + e, 0x80 + f, 0x80 + m]"
      by simp
    ultimately show ?thesis by blast
  qed
qed

lemma encode_decode:
  "encodable s \<Longrightarrow>
   \<exists>bs. encode s = Inr bs \<and> list_all (\<lambda>b. b < 256) bs \<and> decode bs = Inr s"
proof (induction s)
  case Nil
  show ?case by simp
next
  case (Cons c cs)
  then have "is_scalar c" "encodable cs" by (simp_all add: encodable_def)
  from Cons.IH [OF this(2)] obtain rest where
    rest: "encode cs = Inr rest" "list_all (\<lambda>b. b < 256) rest" "decode rest = Inr cs"
    by blast
  from utf8_char_decode [OF \<open>is_scalar c\<close>] obtain bs where
    bs: "utf8_char c = Inr bs" "list_all (\<lambda>b. b < 256) bs"
        "decode (bs @ rest) = (case decode rest of Inl e \<Rightarrow> Inl e | Inr cs \<Rightarrow> Inr (c # cs))"
    by blast
  have "encode (c # cs) = Inr (bs @ rest)" by (simp add: bs(1) rest(1))
  moreover have "decode (bs @ rest) = Inr (c # cs)" by (simp add: bs(3) rest(3))
  moreover have "list_all (\<lambda>b. b < 256) (bs @ rest)" by (simp add: bs(2) rest(2))
  ultimately show ?case by blast
qed

lemma encode_encodable:
  "encode s = Inr bs \<Longrightarrow> encodable s"
proof (induction s arbitrary: bs)
  case Nil
  show ?case by (simp add: encodable_def)
next
  case (Cons c cs)
  then obtain b1 b2 where "utf8_char c = Inr b1" "encode cs = Inr b2"
    by (auto split: sum.splits)
  moreover from this(1) have "is_scalar c"
    by (auto simp: utf8_char_def is_scalar_def split: if_splits)
  ultimately show ?case using Cons.IH by (simp add: encodable_def)
qed

lemma encode_error: "encode s = Inl e \<Longrightarrow> e = UnicodeEncodeError"
  by (induction s) (auto simp: utf8_char_def split: sum.splits if_splits)

text \<open>
  Claim C9, as amended. For a subject and a body of Unicode scalar values (no
  surrogate code points), \<open>download_txt\<close> returns the link whose base64 text decodes to
  the bytes of the UTF-8 encoding of \<open>Subject: \<close>, the subject, two newlines and the
  body, and these bytes decode to that same string. With a surrogate in either argument
  \<open>download_txt\<close> raises \<open>UnicodeEncodeError\<close>.
\<close>

theorem download_txt_roundtrip:
  "(encodable (subj @ bod) \<longrightarrow>
      (\<exists>bytes b64.
         download_txt subj bod = Inr (anchor_open @ b64 @ anchor_close) \<and>
         b64decode b64 = Some bytes \<and>
         encode (lit ''Subject: '' @ subj @ [10, 10] @ bod) = Inr bytes \<and>
         decode bytes = Inr (lit ''Subject: '' @ subj @ [10, 10] @ bod))) \<and>
   (\<not> encodable (subj @ bod) \<longrightarrow> download_txt subj bod = Inl UnicodeEncodeError)"
proof (intro conjI impI)
  assume ok: "encodable (subj @ bod)"
  have "encodable (lit ''Subject: '' @ [10, 10])" by (simp add: encodable_def is_scalar_def)
  with ok have "encodable (lit ''Subject: '' @ subj @ [10, 10] @ bod)"
    by (simp add: encodable_def)
  from encode_decode [OF this] obtain bytes where
    b: "encode (lit ''Subject: '' @ subj @ [10, 10] @ bod) = Inr bytes"
       "list_all (\<lambda>b. b < 256) bytes"
       "decode bytes = Inr (lit ''Subject: '' @ subj @ [10, 10] @ bod)"
    by blast
  from b(2) have "decode (b64encode bytes) = Inr (b64encode bytes)"
    by (intro decode_ascii b64encode_ascii)
  with b(1) have "download_txt subj bod = Inr (anchor_open @ b64encode bytes @ anchor_close)"
    by (simp add: download_txt_def)
  moreover from b(2) have "b64decode (b64encode bytes) = Some bytes"
    by (rule b64decode_encode)
  ultimately show "\<exists>bytes b64.
         download_txt subj bod = Inr (anchor_open @ b64 @ anchor_close) \<and>
         b64decode b64 = Some bytes \<and>
         encode (lit ''Subject: '' @ subj @ [10, 10] @ bod) = Inr bytes \<and>
         decode bytes = Inr (lit ''Subject: '' @ subj @ [10, 10] @ bod)"
    using b(1,3) by blast
next
  assume bad: "\<not> encodable (subj @ bod)"
  define content where "content = lit ''Subject: '' @ subj @ [10, 10] @ bod"
  have "\<not> encodable content"
    using bad by (simp add: encodable_def content_def)
  then have "\<forall>bs. encode content \<noteq> Inr bs"
    using encode_encodable by blast
  then obtain e where "encode content = Inl e"
    by (metis old.sum.exhaust)
  then have "encode content = Inl UnicodeEncodeError"
    using encode_error by blast
  then show "download_txt subj bod = Inl UnicodeEncodeError"
    by (simp add: download_txt_def content_def)
qed

theorem download_txt_roundtrip_witness:
  "encodable (lit ''Leave Request'' @ lit ''Dear Sir, ...'') \<and>
   \<not> encodable ([55296] @ lit ''x'') \<and>
   (\<exists>b64. download_txt (lit ''Leave Request'') (lit ''Dear Sir, ...'') =
        Inr (anchor_open @ b64 @ anchor_close) \<and>
      b64decode b64 = Some (lit ''Subject: Leave Request'' @ [10, 10] @ lit ''Dear Sir, ...'')) \<and>
   download_txt [55296] (lit ''x'') = Inl UnicodeEncodeError"
proof -
  have e: "encodable (lit ''Leave Request'' @ lit ''Dear Sir, ...'')"
    by (simp add: encodable_def is_scalar_def)
  have n: "\<not> encodable ([55296] @ lit ''x'')"
    by (simp add: encodable_def is_scalar_def)
  have b: "encode (lit ''Subject: '' @ lit ''Leave Request'' @ [10, 10] @ lit ''Dear Sir, ...'') =
      Inr (lit ''Subject: Leave Request'' @ [10, 10] @ lit ''Dear Sir, ...'')"
    by (simp add: utf8_char_def)
  from e n b show ?thesis
    using download_txt_roundtrip [of "lit ''Leave Request''" "lit ''Dear Sir, ...''"]
      download_txt_roundtrip [of "[55296]" "lit ''x''"]
    by auto
qed

theorem download_txt_surrogate_counterexample:
  "download_txt [55296] [] = Inl UnicodeEncodeError"
  by (simp add: download_txt_def utf8_char_def)

end
